theory Spec2Isabelle
  imports Main "HOL-Library.AList"
begin

section \<open>The connection registry of \<open>RedisManager\<close> (src/index.ts)\<close>

text \<open>
  \<open>RedisManager\<close> is a class with two static fields, \<open>instances\<close> (a JavaScript
  \<open>Map\<close> from connection names to clients) and \<open>initialized\<close>, and the static methods
  \<open>init\<close>, \<open>createInstance\<close>, \<open>connection\<close>, \<open>createProxy\<close>, \<open>shutdown\<close>
  and \<open>registerShutdownHooks\<close>. The methods are embedded as functions on an explicit
  state. JavaScript runs each synchronous function to completion, so every synchronous
  stretch of code is one function of the state; the one \<^verbatim>\<open>await\<close> of the source (in
  \<open>shutdown\<close>) splits that method into the part that runs at the call and the part
  that runs when the awaited promise has settled.
\<close>

subsection \<open>Data\<close>

text \<open>
  A value of an options object. \<open>Fun\<close> is a function-valued option such as
  \<open>retryStrategy\<close>, from the attempt number to the delay; \<open>None\<close> is a result that is
  not a number, on which the transport stops reconnecting. JavaScript numbers are taken
  as integers: attempt numbers and delays are whole numbers far below \<open>2 ^ 53\<close>.
\<close>

datatype optval = Str string | Num int | Bool bool | Fun "int \<Rightarrow> int option"

text \<open>
  An options object and a configuration object are association lists in the key order of
  the JavaScript object (the order of \<^verbatim>\<open>Object.keys\<close>); the keys of an object are distinct.
\<close>

type_synonym options = "(string \<times> optval) list"

type_synonym config = "(string \<times> options) list"

text \<open>
  A \<open>RedisClient\<close> object: the \<open>key\<close> its observers close over and the options object
  its constructor received. The identity of a client is its position in \<open>clients\<close>.
\<close>

record client =
  key :: string
  opts :: options

datatype outcome = Pending | Fulfilled | Rejected

text \<open>
  One call of the \<^verbatim>\<open>async\<close> method \<open>shutdown\<close>: the promises its \<^verbatim>\<open>await Promise.all\<close>
  waits for, and the state of the promise the call returned.
\<close>

record shutdown_call =
  awaited :: "nat list"
  result :: outcome

text \<open>
  The state: the two static fields, every client constructed so far, every promise
  returned by \<^verbatim>\<open>redis.quit().then(...)\<close> (the client it closes and its state; the
  identity of a promise is its position), and every call of \<open>shutdown\<close>.
\<close>

record state =
  instances :: "(string \<times> nat) list"
  initialized :: bool
  clients :: "client list"
  quits :: "(nat \<times> outcome) list"
  calls :: "shutdown_call list"

definition initial :: state where
  "initial = \<lparr>instances = [], initialized = False, clients = [], quits = [], calls = []\<rparr>"

text \<open>
  The two errors the source throws: \<^verbatim>\<open>Error(`Redis connection "${key}" not found`)\<close> and
  \<^verbatim>\<open>Error(`Redis method ${prop} not found`)\<close>.
\<close>

datatype error = NotFound string | MethodNotFound string

subsection \<open>\<open>createInstance\<close>\<close>

text \<open>
  The arrow function \<^verbatim>\<open>(times) => Math.min(times * 100, 5000)\<close>; its parameter is
  \<open>n\<close> here.
\<close>

definition retryStrategy :: "int \<Rightarrow> int option" where
  "retryStrategy n = Some (min (n * 100) 5000)"

text \<open>
  The object literal handed to the constructor: the spread of \<open>opt\<close>, then the three
  fixed properties. A property written after a spread replaces the spread's value in
  place, or is appended, which is what \<open>AList.update\<close> does.
\<close>

definition client_options :: "options \<Rightarrow> options" where
  "client_options opt =
     AList.update ''maxRetriesPerRequest'' (Num 3)
       (AList.update ''enableOfflineQueue'' (Bool True)
         (AList.update ''retryStrategy'' (Fun retryStrategy) opt))"

text \<open>
  \<^verbatim>\<open>if (this.instances.has(key)) return this.instances.get(key)!\<close>; otherwise a new client
  is constructed and stored with \<^verbatim>\<open>this.instances.set(key, client)\<close>. The five logging
  observers have no effect on the state; the \<open>end\<close> observer is \<open>end_observer\<close> below.
\<close>

definition createInstance :: "string \<Rightarrow> options \<Rightarrow> state \<Rightarrow> nat \<times> state" where
  "createInstance k opt s =
     (case map_of (instances s) k of
        Some c \<Rightarrow> (c, s)
      | None \<Rightarrow>
          (length (clients s),
           s\<lparr>clients := clients s @ [\<lparr>key = k, opts = client_options opt\<rparr>],
             instances := AList.update k (length (clients s)) (instances s)\<rparr>))"

text \<open>
  The observer of the \<open>end\<close> event of client \<open>c\<close>: \<^verbatim>\<open>this.instances.delete(key)\<close>, with
  the \<open>key\<close> the client was created under.
\<close>

definition end_observer :: "nat \<Rightarrow> state \<Rightarrow> state" where
  "end_observer c s =
     (if c < length (clients s)
      then s\<lparr>instances := AList.delete (key (clients s ! c)) (instances s)\<rparr>
      else s)"

subsection \<open>\<open>connection\<close>\<close>

definition connection :: "state \<Rightarrow> string \<Rightarrow> error + nat" where
  "connection s k =
     (case map_of (instances s) k of
        None \<Rightarrow> Inl (NotFound k)
      | Some c \<Rightarrow> Inr c)"

subsection \<open>\<open>createProxy\<close>\<close>

text \<open>
  The proxy's target is the empty object \<^verbatim>\<open>{}\<close>; the assignment
  \<^verbatim>\<open>proxy.connection = this.connection\<close> goes through to the target (the handler has no
  \<open>set\<close> trap), so the target ends with the one property \<open>connection\<close>. A proxy is
  modelled by its target.
\<close>

datatype target_member = ConnectionMethod

type_synonym proxy = "(string \<times> target_member) list"

definition createProxy :: proxy where
  "createProxy = AList.update ''connection'' ConnectionMethod []"

text \<open>
  A member of a client object (a function, by its name, or a plain value), and what a
  property read on the proxy returns: \<^verbatim>\<open>value.bind(client)\<close> or the value.
\<close>

datatype member = Function string | Value string

datatype resolved = Bound string nat | Plain string

text \<open>
  The \<open>get\<close> trap. The transport's class is not part of the repository: \<open>M c\<close> is the
  member table of client \<open>c\<close> (\<open>M c prop = None\<close> when \<^verbatim>\<open>prop in client\<close> is false).
  A \<open>get\<close> trap receives every property read on the proxy, whatever the target holds;
  the trap of the source ignores its target argument (\<^verbatim>\<open>_\<close>), and so does \<open>proxy_get\<close>.
\<close>

definition proxy_get ::
  "(nat \<Rightarrow> string \<Rightarrow> member option) \<Rightarrow> proxy \<Rightarrow> state \<Rightarrow> string \<Rightarrow> error + resolved" where
  "proxy_get M p s prop =
     (case connection s ''default'' of
        Inl e \<Rightarrow> Inl e
      | Inr c \<Rightarrow>
          (case M c prop of
             Some (Function f) \<Rightarrow> Inr (Bound f c)
           | Some (Value v) \<Rightarrow> Inr (Plain v)
           | None \<Rightarrow> Inl (MethodNotFound prop)))"

subsection \<open>\<open>shutdown\<close>\<close>

text \<open>
  The part of \<open>shutdown\<close> that runs at the call. Not initialized: the call returns at
  once and its promise is fulfilled. Otherwise \<^verbatim>\<open>forEach\<close> requests \<open>quit\<close> on every
  registered client, in the order of the \<open>Map\<close>, and the call suspends at
  \<^verbatim>\<open>await Promise.all(promises)\<close>.
\<close>

definition shutdown :: "state \<Rightarrow> state" where
  "shutdown s =
     (if \<not> initialized s
      then s\<lparr>calls := calls s @ [\<lparr>awaited = [], result = Fulfilled\<rparr>]\<rparr>
      else s\<lparr>quits := quits s @ map (\<lambda>(name, c). (c, Pending)) (instances s),
             calls := calls s @
               [\<lparr>awaited = [length (quits s) ..< length (quits s) + length (instances s)],
                 result = Pending\<rparr>]\<rparr>)"

text \<open>The transport settles promise \<open>p\<close>: the \<open>quit\<close> succeeded (\<open>ok\<close>) or failed.\<close>

definition settle :: "nat \<Rightarrow> bool \<Rightarrow> state \<Rightarrow> state" where
  "settle p ok s =
     (if p < length (quits s) \<and> snd (quits s ! p) = Pending
      then s\<lparr>quits := (quits s)[p := (fst (quits s ! p), if ok then Fulfilled else Rejected)]\<rparr>
      else s)"

definition promise_state :: "state \<Rightarrow> nat \<Rightarrow> outcome" where
  "promise_state s p = (if p < length (quits s) then snd (quits s ! p) else Pending)"

text \<open>
  The part of call \<open>j\<close> of \<open>shutdown\<close> after the \<^verbatim>\<open>await\<close>. \<^verbatim>\<open>Promise.all\<close> rejects as
  soon as one of its promises is rejected: the \<^verbatim>\<open>await\<close> throws and the call's promise
  is rejected, the rest of the body is not run. It is fulfilled when all its promises
  are (at once for none): the body goes on with \<^verbatim>\<open>this.instances.clear()\<close> and
  \<^verbatim>\<open>this.initialized = false\<close>. Until then the call stays suspended.
\<close>

definition resume :: "nat \<Rightarrow> state \<Rightarrow> state" where
  "resume j s =
     (if j < length (calls s) \<and> result (calls s ! j) = Pending
      then
        if Rejected \<in> set (map (promise_state s) (awaited (calls s ! j)))
        then s\<lparr>calls := (calls s)[j := (calls s ! j)\<lparr>result := Rejected\<rparr>]\<rparr>
        else if list_all (\<lambda>p. promise_state s p = Fulfilled) (awaited (calls s ! j))
        then s\<lparr>instances := [], initialized := False,
               calls := (calls s)[j := (calls s ! j)\<lparr>result := Fulfilled\<rparr>]\<rparr>
        else s
      else s)"

subsection \<open>\<open>init\<close>\<close>

text \<open>
  \<open>init\<close> is a synchronous function: \<^verbatim>\<open>if (force) this.shutdown();\<close> runs \<open>shutdown\<close>
  up to its \<^verbatim>\<open>await\<close> and drops the promise, and the loop over \<^verbatim>\<open>Object.keys(config)\<close>
  follows at once.
\<close>

definition init :: "config \<Rightarrow> bool \<Rightarrow> state \<Rightarrow> proxy \<times> state" where
  "init cfg force s =
     (if initialized s \<and> \<not> force then (createProxy, s)
      else
        (createProxy,
         (fold (\<lambda>(k, opt) t. snd (createInstance k opt t)) cfg
            (if force then shutdown s else s))\<lparr>initialized := True\<rparr>))"

subsection \<open>Runs\<close>

text \<open>
  What can happen to the registry, one synchronous stretch at a time: a call of \<open>init\<close>;
  a call of \<open>shutdown\<close> (the handlers that \<open>registerShutdownHooks\<close> installs run
  \<^verbatim>\<open>await RedisManager.shutdown()\<close> and then leave the process, which is not
  modelled); the transport settling the promise of a \<open>quit\<close>; a suspended \<open>shutdown\<close>
  resuming; and the \<open>end\<close> event of a client. A suspended call resumes in a later job,
  never inside the synchronous function that called \<open>shutdown\<close>, so the resumption is
  an event of its own, also when the call waits for no promise at all.
\<close>

datatype event =
    Init config bool
  | Shutdown
  | Settle nat bool
  | Resume nat
  | End nat

fun step :: "event \<Rightarrow> state \<Rightarrow> state" where
  "step (Init cfg force) s = snd (init cfg force s)"
| "step Shutdown s = shutdown s"
| "step (Settle p ok) s = settle p ok s"
| "step (Resume j) s = resume j s"
| "step (End c) s = end_observer c s"

definition run :: "event list \<Rightarrow> state \<Rightarrow> state" where
  "run es s = fold step es s"

subsection \<open>Vocabulary of the properties\<close>

text \<open>Two configuration objects used as concrete inputs.\<close>

definition config_one :: config where
  "config_one = [(''default'', [(''host'', Str ''a'')])]"

definition config_two :: config where
  "config_two =
     [(''default'', [(''host'', Str ''a'')]),
      (''cache'', [(''host'', Str ''b''), (''maxRetriesPerRequest'', Num 9)])]"

text \<open>
  A member table for concrete inputs: every client has the functions \<open>get\<close> and \<open>set\<close>
  and the plain value \<open>status\<close>, and nothing else.
\<close>

definition example_members :: "nat \<Rightarrow> string \<Rightarrow> member option" where
  "example_members c =
     map_of [(''get'', Function ''get''), (''set'', Function ''set''), (''status'', Value ''ready'')]"

text \<open>
  The events whose code removes the entry of name \<open>k\<close>: the \<open>end\<close> observer of a client
  created under \<open>k\<close>, and the resumption of a \<open>shutdown\<close> (its \<^verbatim>\<open>clear()\<close>).
\<close>

fun removes :: "string \<Rightarrow> state \<Rightarrow> event \<Rightarrow> bool" where
  "removes k s (End c) = (c < length (clients s) \<and> key (clients s ! c) = k)"
| "removes k s (Resume j) = True"
| "removes k s e = False"

text \<open>
  The transport settles the promises \<open>n\<close>, \<open>n + 1\<close>, ... in turn, the \<open>i\<close>-th as
  \<open>oks ! i\<close> says (\<open>True\<close>: the close succeeded).
\<close>

definition settled :: "bool \<Rightarrow> outcome" where
  "settled ok = (if ok then Fulfilled else Rejected)"

definition settle_all :: "nat \<Rightarrow> bool list \<Rightarrow> event list" where
  "settle_all n oks = map (\<lambda>(p, ok). Settle p ok) (zip [n ..< n + length oks] oks)"

section \<open>Properties\<close>

subsection \<open>Concrete runs and general facts about runs\<close>

lemma run_Nil: "run [] s = s"
  by (simp add: run_def)

lemma run_Cons: "run (e # es) s = run es (step e s)"
  by (simp add: run_def)

lemma run_append: "run (es @ fs) s = run fs (run es s)"
  by (simp add: run_def)

lemma run_snoc: "run (es @ [e]) s = step e (run es s)"
  by (simp add: run_def)

lemma run_take_Suc: "i < length es \<Longrightarrow> run (take (Suc i) es) s = step (es ! i) (run (take i es) s)"
  by (simp add: take_Suc_conv_app_nth run_snoc)

lemma run_one:
  "run [Init config_one False] initial =
     \<lparr>instances = [(''default'', 0)], initialized = True,
      clients = [\<lparr>key = ''default'', opts = client_options [(''host'', Str ''a'')]\<rparr>],
      quits = [], calls = []\<rparr>"
  by (simp add: run_def init_def initial_def config_one_def createInstance_def)

lemma run_two:
  "run [Init config_two False] initial =
     \<lparr>instances = [(''default'', 0), (''cache'', 1)], initialized = True,
      clients = [\<lparr>key = ''default'', opts = client_options [(''host'', Str ''a'')]\<rparr>,
                 \<lparr>key = ''cache'',
                  opts = client_options [(''host'', Str ''b''), (''maxRetriesPerRequest'', Num 9)]\<rparr>],
      quits = [], calls = []\<rparr>"
  by (simp add: run_def init_def initial_def config_two_def createInstance_def)

lemma instances_shutdown: "instances (shutdown s) = instances s"
  by (simp add: shutdown_def)

lemma instances_settle: "instances (settle p ok s) = instances s"
  by (simp add: settle_def)

subsection \<open>Lookup\<close>

text \<open>
  C8. \<open>connection\<close> fails exactly when no client is registered under the name, the
  error is \<open>NotFound\<close> for that name, and otherwise the registered client is returned.
  In particular every lookup fails before any initialization, and after a \<open>shutdown\<close>
  has resolved.
\<close>

theorem connection_lookup:
  "((\<exists>e. connection s k = Inl e) \<longleftrightarrow> map_of (instances s) k = None) \<and>
   (map_of (instances s) k = None \<longrightarrow> connection s k = Inl (NotFound k)) \<and>
   (\<forall>c. map_of (instances s) k = Some c \<longrightarrow> connection s k = Inr c) \<and>
   connection initial k = Inl (NotFound k) \<and>
   (j < length (calls s) \<and> result (calls s ! j) = Pending \<and>
    result (calls (resume j s) ! j) = Fulfilled \<longrightarrow>
      connection (resume j s) k = Inl (NotFound k))"
proof -
  have "connection (resume j s) k = Inl (NotFound k)"
    if "j < length (calls s)" and "result (calls s ! j) = Pending"
      and "result (calls (resume j s) ! j) = Fulfilled"
  proof -
    from that have "instances (resume j s) = []"
      by (auto simp: resume_def split: if_splits)
    then show ?thesis by (simp add: connection_def)
  qed
  then show ?thesis
    by (auto simp: connection_def initial_def split: option.splits)
qed

text \<open>
  C8 at a concrete input: after \<open>init\<close> with \<open>default\<close> and \<open>cache\<close>, the name
  \<open>nonexistent\<close> is not found and \<open>cache\<close> is client 1; after the shutdown of both has
  resolved, \<open>cache\<close> is not found.
\<close>

theorem connection_lookup_witness:
  "map_of (instances (run [Init config_two False] initial)) ''nonexistent'' = None \<and>
   connection (run [Init config_two False] initial) ''nonexistent'' = Inl (NotFound ''nonexistent'') \<and>
   map_of (instances (run [Init config_two False] initial)) ''cache'' = Some 1 \<and>
   connection (run [Init config_two False] initial) ''cache'' = Inr 1 \<and>
   result (calls (run ([Init config_two False, Shutdown] @ settle_all 0 [True, True]) initial) ! 0) = Pending \<and>
   result (calls (resume 0 (run ([Init config_two False, Shutdown] @ settle_all 0 [True, True]) initial)) ! 0)
     = Fulfilled \<and>
   connection (resume 0 (run ([Init config_two False, Shutdown] @ settle_all 0 [True, True]) initial)) ''cache''
     = Inl (NotFound ''cache'')"
proof -
  have t: "run ([Init config_two False, Shutdown] @ settle_all 0 [True, True]) initial =
     \<lparr>instances = [(''default'', 0), (''cache'', 1)], initialized = True,
      clients = [\<lparr>key = ''default'', opts = client_options [(''host'', Str ''a'')]\<rparr>,
                 \<lparr>key = ''cache'',
                  opts = client_options [(''host'', Str ''b''), (''maxRetriesPerRequest'', Num 9)]\<rparr>],
      quits = [(0, Fulfilled), (1, Fulfilled)],
      calls = [\<lparr>awaited = [0, 1], result = Pending\<rparr>]\<rparr>"
    using run_two
    by (simp add: run_def shutdown_def settle_all_def settle_def upt_rec)
  have h: "0 < length (calls (run ([Init config_two False, Shutdown] @ settle_all 0 [True, True]) initial)) \<and>
     result (calls (run ([Init config_two False, Shutdown] @ settle_all 0 [True, True]) initial) ! 0) = Pending \<and>
     result (calls (resume 0 (run ([Init config_two False, Shutdown] @ settle_all 0 [True, True]) initial)) ! 0)
       = Fulfilled"
    unfolding t by (simp add: resume_def promise_state_def)
  show ?thesis
    using h connection_lookup [of "run [Init config_two False] initial" "''nonexistent''" 0]
      connection_lookup [of "run [Init config_two False] initial" "''cache''" 0]
      connection_lookup [of "run ([Init config_two False, Shutdown] @ settle_all 0 [True, True]) initial"
         "''cache''" 0]
    by (simp add: run_two)
qed

subsection \<open>The client factory\<close>

text \<open>
  C7. Two calls of \<open>createInstance\<close> with the same name, whatever the two options
  objects, return the same client, and the second call leaves the whole state as the
  first left it: no client is constructed and the entry of the name is the one the
  first call returned.
\<close>

theorem createInstance_idempotent:
  "fst (createInstance k opt2 (snd (createInstance k opt1 s))) = fst (createInstance k opt1 s) \<and>
   snd (createInstance k opt2 (snd (createInstance k opt1 s))) = snd (createInstance k opt1 s) \<and>
   map_of (instances (snd (createInstance k opt1 s))) k = Some (fst (createInstance k opt1 s))"
  by (simp add: createInstance_def update_conv' split: option.splits)

text \<open>
  C9. A client that \<open>createInstance\<close> constructs receives the fixed policy whatever
  the caller's options say: \<open>retryStrategy\<close> is the source's function, which gives
  \<open>min (n * 100) 5000\<close> for every attempt \<open>n\<close> and never a non-number (so the transport
  never stops reconnecting), \<open>enableOfflineQueue\<close> is true and
  \<open>maxRetriesPerRequest\<close> is 3.
\<close>

theorem createInstance_policy:
  assumes "map_of (instances s) k = None"
  shows "fst (createInstance k opt s) = length (clients s) \<and>
         length (clients (snd (createInstance k opt s))) = Suc (length (clients s)) \<and>
         map_of (opts (clients (snd (createInstance k opt s)) ! fst (createInstance k opt s)))
           ''retryStrategy'' = Some (Fun retryStrategy) \<and>
         (\<forall>n. retryStrategy n = Some (min (n * 100) 5000)) \<and>
         map_of (opts (clients (snd (createInstance k opt s)) ! fst (createInstance k opt s)))
           ''enableOfflineQueue'' = Some (Bool True) \<and>
         map_of (opts (clients (snd (createInstance k opt s)) ! fst (createInstance k opt s)))
           ''maxRetriesPerRequest'' = Some (Num 3)"
  using assms by (simp add: createInstance_def client_options_def update_conv' retryStrategy_def)

text \<open>
  C9 at a concrete input: the caller's options set the three properties to other values,
  and the constructed client has the fixed ones.
\<close>

theorem createInstance_policy_witness:
  "map_of (instances initial) ''default'' = None \<and>
   map_of (opts (clients (snd (createInstance ''default''
       [(''maxRetriesPerRequest'', Num 9), (''enableOfflineQueue'', Bool False),
        (''retryStrategy'', Fun (\<lambda>n. None))] initial)) ! 0)) ''maxRetriesPerRequest'' = Some (Num 3) \<and>
   map_of (opts (clients (snd (createInstance ''default''
       [(''maxRetriesPerRequest'', Num 9), (''enableOfflineQueue'', Bool False),
        (''retryStrategy'', Fun (\<lambda>n. None))] initial)) ! 0)) ''enableOfflineQueue'' = Some (Bool True) \<and>
   map_of (opts (clients (snd (createInstance ''default''
       [(''maxRetriesPerRequest'', Num 9), (''enableOfflineQueue'', Bool False),
        (''retryStrategy'', Fun (\<lambda>n. None))] initial)) ! 0)) ''retryStrategy'' = Some (Fun retryStrategy) \<and>
   retryStrategy 7 = Some 700 \<and> retryStrategy 50 = Some 5000 \<and> retryStrategy 51 = Some 5000"
proof -
  have h: "map_of (instances initial) ''default'' = None"
    by (simp add: initial_def)
  have l: "length (clients initial) = 0"
    by (simp add: initial_def)
  show ?thesis
    using h createInstance_policy [OF h, of "[(''maxRetriesPerRequest'', Num 9),
        (''enableOfflineQueue'', Bool False), (''retryStrategy'', Fun (\<lambda>n. None))]"]
    by (auto simp: l)
qed

subsection \<open>The default router\<close>

text \<open>
  C6. A property read on the router: when \<open>default\<close> is registered and the client has
  the property, a function comes back bound to that client and a plain value as it is;
  when the client does not have the property the read fails with \<open>MethodNotFound\<close>
  (the unsupported-operation error); when \<open>default\<close> is not registered it fails with
  \<open>NotFound\<close>.
\<close>

theorem proxy_get_forwards:
  "(map_of (instances s) ''default'' = Some c \<and> M c prop = Some (Function f) \<longrightarrow>
      proxy_get M p s prop = Inr (Bound f c)) \<and>
   (map_of (instances s) ''default'' = Some c \<and> M c prop = Some (Value v) \<longrightarrow>
      proxy_get M p s prop = Inr (Plain v)) \<and>
   (map_of (instances s) ''default'' = Some c \<and> M c prop = None \<longrightarrow>
      proxy_get M p s prop = Inl (MethodNotFound prop)) \<and>
   (map_of (instances s) ''default'' = None \<longrightarrow>
      proxy_get M p s prop = Inl (NotFound ''default''))"
  by (simp add: proxy_get_def connection_def)

text \<open>C6 at concrete inputs, one for each of the four cases.\<close>

theorem proxy_get_forwards_witness:
  "map_of (instances (run [Init config_two False] initial)) ''default'' = Some 0 \<and>
   example_members 0 ''get'' = Some (Function ''get'') \<and>
   proxy_get example_members createProxy (run [Init config_two False] initial) ''get'' = Inr (Bound ''get'' 0) \<and>
   example_members 0 ''status'' = Some (Value ''ready'') \<and>
   proxy_get example_members createProxy (run [Init config_two False] initial) ''status'' = Inr (Plain ''ready'') \<and>
   example_members 0 ''flush'' = None \<and>
   proxy_get example_members createProxy (run [Init config_two False] initial) ''flush'' =
     Inl (MethodNotFound ''flush'') \<and>
   map_of (instances initial) ''default'' = None \<and>
   proxy_get example_members createProxy initial ''get'' = Inl (NotFound ''default'')"
proof -
  have h: "map_of (instances (run [Init config_two False] initial)) ''default'' = Some 0"
    by (simp add: run_two)
  have m: "example_members 0 ''get'' = Some (Function ''get'')"
    "example_members 0 ''status'' = Some (Value ''ready'')"
    "example_members 0 ''flush'' = None"
    by (simp_all add: example_members_def)
  have i: "map_of (instances initial) ''default'' = None"
    by (simp add: initial_def)
  show ?thesis
    using h m i
      proxy_get_forwards [of "run [Init config_two False] initial" 0 example_members "''get''" "''get''"
        createProxy "''x''"]
      proxy_get_forwards [of "run [Init config_two False] initial" 0 example_members "''status''" "''x''"
        createProxy "''ready''"]
      proxy_get_forwards [of "run [Init config_two False] initial" 0 example_members "''flush''" "''x''"
        createProxy "''x''"]
      proxy_get_forwards [of initial 0 example_members "''get''" "''x''" createProxy "''x''"]
    by simp
qed

text \<open>
  C4. What the code does to a router across a forced \<open>init\<close>. The router comes from
  the first \<open>init\<close>, when \<open>default\<close> is client 0. The forced \<open>init\<close> with the same
  configuration requests the close of client 0 and constructs no client: \<open>default\<close> is
  still client 0, with its close pending. A read of \<open>get\<close> on the old router, and on
  the router the forced \<open>init\<close> returned, is bound to client 0. When the close has
  succeeded and the \<open>shutdown\<close> has resumed, the read fails with \<open>NotFound\<close> for
  \<open>default\<close>. At no point is there a new client for the router to reach.
\<close>

theorem router_after_forced_init:
  "map_of (instances (run [Init config_one False] initial)) ''default'' = Some 0 \<and>
   instances (run [Init config_one False, Init config_one True] initial) = [(''default'', 0)] \<and>
   length (clients (run [Init config_one False, Init config_one True] initial)) = 1 \<and>
   quits (run [Init config_one False, Init config_one True] initial) = [(0, Pending)] \<and>
   proxy_get example_members (fst (init config_one False initial))
     (run [Init config_one False, Init config_one True] initial) ''get'' = Inr (Bound ''get'' 0) \<and>
   proxy_get example_members (fst (init config_one True (run [Init config_one False] initial)))
     (run [Init config_one False, Init config_one True] initial) ''get'' = Inr (Bound ''get'' 0) \<and>
   proxy_get example_members (fst (init config_one False initial))
     (run [Init config_one False, Init config_one True, Settle 0 True, Resume 0] initial) ''get'' =
     Inl (NotFound ''default'')"
  by (simp add: run_def init_def initial_def config_one_def createInstance_def shutdown_def
      settle_def resume_def promise_state_def proxy_get_def connection_def example_members_def)

text \<open>
  C3. What the code does on \<^verbatim>\<open>router.connection\<close>: the property sits on the proxy's
  target, yet the read goes to the \<open>get\<close> trap. With \<open>default\<close> and \<open>cache\<close> registered
  and a client class without a member \<open>connection\<close> the read fails with
  \<open>MethodNotFound\<close>, and once the \<open>default\<close> client has ended it fails with
  \<open>NotFound\<close> for \<open>default\<close>, whatever the client class; the registry lookup of
  \<open>cache\<close> succeeds in both states.
\<close>

theorem router_connection_goes_to_trap:
  "map_of (fst (init config_two False initial)) ''connection'' = Some ConnectionMethod \<and>
   connection (snd (init config_two False initial)) ''cache'' = Inr 1 \<and>
   proxy_get example_members (fst (init config_two False initial)) (snd (init config_two False initial))
     ''connection'' = Inl (MethodNotFound ''connection'') \<and>
   connection (end_observer 0 (snd (init config_two False initial))) ''cache'' = Inr 1 \<and>
   proxy_get M (fst (init config_two False initial)) (end_observer 0 (snd (init config_two False initial)))
     ''connection'' = Inl (NotFound ''default'')"
  by (simp add: init_def initial_def config_two_def createInstance_def createProxy_def
      connection_def proxy_get_def example_members_def end_observer_def)

subsection \<open>\<open>init\<close>\<close>

text \<open>
  C5. On an initialized registry, \<open>init\<close> without \<open>force\<close> leaves the state as it is (no
  client is constructed, the mapping and the flag are unchanged), and the router it
  returns is the one every \<open>init\<close> returns: a read on it gives, in every state, what a
  read on an earlier router gives.
\<close>

theorem init_again:
  assumes "initialized s"
  shows "snd (init cfg False s) = s \<and>
         clients (snd (init cfg False s)) = clients s \<and>
         instances (snd (init cfg False s)) = instances s \<and>
         initialized (snd (init cfg False s)) \<and>
         fst (init cfg False s) = fst (init cfg0 force0 s0) \<and>
         proxy_get M (fst (init cfg False s)) t prop = proxy_get M (fst (init cfg0 force0 s0)) t prop"
  using assms by (simp add: init_def proxy_get_def)

text \<open>
  C5 at a concrete input: a second \<open>init\<close>, with a larger configuration, after a first.
\<close>

theorem init_again_witness:
  "initialized (run [Init config_one False] initial) \<and>
   snd (init config_two False (run [Init config_one False] initial)) = run [Init config_one False] initial \<and>
   length (clients (snd (init config_two False (run [Init config_one False] initial)))) = 1 \<and>
   instances (snd (init config_two False (run [Init config_one False] initial))) = [(''default'', 0)]"
proof -
  have h: "initialized (run [Init config_one False] initial)"
    by (simp add: run_one)
  show ?thesis
    using h init_again [OF h, of config_two config_one False initial example_members initial "''get''"]
    by (simp add: run_one)
qed

text \<open>
  C1. What the code does on a forced \<open>init\<close>. After \<open>init\<close> with \<open>default\<close>, a forced
  \<open>init\<close> with \<open>default\<close> and \<open>cache\<close> returns with the close of client 0 requested and
  pending, the \<open>shutdown\<close> suspended, client 0 still registered under \<open>default\<close>, and the
  new client 1 constructed and registered under \<open>cache\<close>. When the close succeeds and
  the \<open>shutdown\<close> resumes, the mapping is cleared, client 1 included, and the flag is
  reset, though no close of client 1 was ever requested. In the second run client 0 ends,
  a forced \<open>init\<close> constructs client 1 under \<open>default\<close>, the resumed \<open>shutdown\<close> drops
  it from the mapping, and a further \<open>init\<close> constructs client 2 under \<open>default\<close>: no
  close was requested on either.
\<close>

theorem forced_init_does_not_wait:
  "instances (run [Init config_one False] initial) = [(''default'', 0)] \<and>
   length (clients (run [Init config_one False] initial)) = 1 \<and>
   instances (run [Init config_one False, Init config_two True] initial) =
     [(''default'', 0), (''cache'', 1)] \<and>
   length (clients (run [Init config_one False, Init config_two True] initial)) = 2 \<and>
   quits (run [Init config_one False, Init config_two True] initial) = [(0, Pending)] \<and>
   calls (run [Init config_one False, Init config_two True] initial) =
     [\<lparr>awaited = [0], result = Pending\<rparr>] \<and>
   initialized (run [Init config_one False, Init config_two True] initial) \<and>
   instances (run [Init config_one False, Init config_two True, Settle 0 True, Resume 0] initial) = [] \<and>
   \<not> initialized (run [Init config_one False, Init config_two True, Settle 0 True, Resume 0] initial) \<and>
   quits (run [Init config_one False, Init config_two True, Settle 0 True, Resume 0] initial) =
     [(0, Fulfilled)] \<and>
   instances (run [Init config_one False, End 0, Init config_one True, Resume 0, Init config_one False]
     initial) = [(''default'', 2)] \<and>
   map key (clients (run [Init config_one False, End 0, Init config_one True, Resume 0,
     Init config_one False] initial)) = [''default'', ''default'', ''default''] \<and>
   quits (run [Init config_one False, End 0, Init config_one True, Resume 0, Init config_one False]
     initial) = []"
  by (simp add: run_def init_def initial_def config_one_def config_two_def createInstance_def
      shutdown_def settle_def resume_def promise_state_def end_observer_def)

subsection \<open>\<open>shutdown\<close>\<close>

lemma settle_all_Cons: "settle_all n (ok # oks) = Settle n ok # settle_all (Suc n) oks"
  by (simp add: settle_all_def upt_rec)

lemma run_settle_all:
  "length oks = length cs \<Longrightarrow>
   run (settle_all (length q) oks) (s\<lparr>quits := q @ map (\<lambda>c. (c, Pending)) cs\<rparr>) =
   s\<lparr>quits := q @ map (\<lambda>(c, ok). (c, settled ok)) (zip cs oks)\<rparr>"
proof (induction cs arbitrary: q oks)
  case Nil
  then show ?case by (simp add: settle_all_def run_def)
next
  case (Cons c cs)
  then obtain ok oks' where oks: "oks = ok # oks'" and len: "length oks' = length cs"
    by (cases oks) auto
  have st: "step (Settle (length q) ok) (s\<lparr>quits := q @ map (\<lambda>c. (c, Pending)) (c # cs)\<rparr>) =
        s\<lparr>quits := (q @ [(c, settled ok)]) @ map (\<lambda>c. (c, Pending)) cs\<rparr>"
    by (simp add: settle_def settled_def nth_append)
  have "run (settle_all (Suc (length q)) oks') (s\<lparr>quits := (q @ [(c, settled ok)]) @ map (\<lambda>c. (c, Pending)) cs\<rparr>) =
        s\<lparr>quits := (q @ [(c, settled ok)]) @ map (\<lambda>(c, ok). (c, settled ok)) (zip cs oks')\<rparr>"
    using Cons.IH [OF len, of "q @ [(c, settled ok)]"] by simp
  then show ?case
    unfolding oks settle_all_Cons run_Cons st by simp
qed

lemma shutdown_initialized:
  "initialized s \<Longrightarrow>
   shutdown s = s\<lparr>calls := calls s @
       [\<lparr>awaited = [length (quits s) ..< length (quits s) + length (instances s)], result = Pending\<rparr>],
     quits := quits s @ map (\<lambda>c. (c, Pending)) (map snd (instances s))\<rparr>"
  by (simp add: shutdown_def case_prod_unfold)

lemma run_settle_shutdown:
  assumes "initialized s" and "length oks = length (instances s)"
  shows "run (settle_all (length (quits s)) oks) (shutdown s) =
    s\<lparr>calls := calls s @
       [\<lparr>awaited = [length (quits s) ..< length (quits s) + length (instances s)], result = Pending\<rparr>],
      quits := quits s @ map (\<lambda>(c, ok). (c, settled ok)) (zip (map snd (instances s)) oks)\<rparr>"
  using assms run_settle_all [of oks "map snd (instances s)" "quits s"
     "s\<lparr>calls := calls s @
       [\<lparr>awaited = [length (quits s) ..< length (quits s) + length (instances s)], result = Pending\<rparr>]\<rparr>"]
  by (simp add: shutdown_initialized)

lemma promise_states_settled:
  assumes "length oks = length cs"
  shows "map (promise_state (s\<lparr>quits := q @ map (\<lambda>(c, ok). (c, settled ok)) (zip cs oks)\<rparr>))
            [length q ..< length q + length cs] = map settled oks"
proof (rule nth_equalityI)
  show "length (map (promise_state (s\<lparr>quits := q @ map (\<lambda>(c, ok). (c, settled ok)) (zip cs oks)\<rparr>))
            [length q ..< length q + length cs]) = length (map settled oks)"
    using assms by simp
next
  fix i
  assume "i < length (map (promise_state (s\<lparr>quits := q @ map (\<lambda>(c, ok). (c, settled ok)) (zip cs oks)\<rparr>))
            [length q ..< length q + length cs])"
  then have i: "i < length cs" by simp
  then show "map (promise_state (s\<lparr>quits := q @ map (\<lambda>(c, ok). (c, settled ok)) (zip cs oks)\<rparr>))
            [length q ..< length q + length cs] ! i = map settled oks ! i"
    using assms by (simp add: promise_state_def nth_append)
qed

lemma Rejected_settled: "Rejected \<in> settled ` set oks \<longleftrightarrow> \<not> list_all id oks"
  by (induction oks) (auto simp: settled_def)

lemma Fulfilled_settled:
  "map (promise_state t) ps = map settled oks \<Longrightarrow>
   list_all (\<lambda>p. promise_state t p = Fulfilled) ps \<longleftrightarrow> list_all id oks"
proof (induction ps arbitrary: oks)
  case Nil
  then show ?case by simp
next
  case (Cons p ps)
  then obtain ok oks' where "oks = ok # oks'" by (cases oks) auto
  with Cons show ?case by (auto simp: settled_def split: if_splits)
qed

lemma resume_settled:
  assumes "j < length (calls t)" and "result (calls t ! j) = Pending"
    and "map (promise_state t) (awaited (calls t ! j)) = map settled oks"
  shows "resume j t =
    (if list_all id oks
     then t\<lparr>instances := [], initialized := False,
            calls := (calls t)[j := (calls t ! j)\<lparr>result := Fulfilled\<rparr>]\<rparr>
     else t\<lparr>calls := (calls t)[j := (calls t ! j)\<lparr>result := Rejected\<rparr>]\<rparr>)"
  using assms Fulfilled_settled [OF assms(3)] by (simp add: resume_def Rejected_settled)

text \<open>
  C2, as stated, fails: on the registry with \<open>default\<close> and \<open>cache\<close>, \<open>shutdown\<close> is
  called, the close of \<open>default\<close> fails and the close of \<open>cache\<close> succeeds. When the
  call resumes its promise is rejected, the mapping still holds both entries and the
  flag is still true.
\<close>

theorem shutdown_failed_close_counterexample:
  "initialized (run [Init config_two False] initial) \<and>
   quits (run [Init config_two False, Shutdown, Settle 0 False, Settle 1 True, Resume 0] initial) =
     [(0, Rejected), (1, Fulfilled)] \<and>
   calls (run [Init config_two False, Shutdown, Settle 0 False, Settle 1 True, Resume 0] initial) =
     [\<lparr>awaited = [0, 1], result = Rejected\<rparr>] \<and>
   instances (run [Init config_two False, Shutdown, Settle 0 False, Settle 1 True, Resume 0] initial) =
     [(''default'', 0), (''cache'', 1)] \<and>
   initialized (run [Init config_two False, Shutdown, Settle 0 False, Settle 1 True, Resume 0] initial)"
  by (simp add: run_def init_def initial_def config_two_def createInstance_def
      shutdown_def settle_def resume_def promise_state_def)

text \<open>
  C2, amended. On an initialized registry, \<open>shutdown\<close> requests a close on every
  registered client before it waits for any, and each close settles as the transport
  decides, whatever the others do. When every close has succeeded, the resumed call
  resolves with the mapping empty and the flag false, for any number of registered
  clients. When some close has failed, the resumed call is rejected and leaves the
  mapping and the flag as they were.
\<close>

theorem shutdown_completeness:
  assumes "initialized s" and "length oks = length (instances s)"
  shows "map fst (drop (length (quits s)) (quits (shutdown s))) = map snd (instances s) \<and>
    map (promise_state (run (settle_all (length (quits s)) oks) (shutdown s)))
      (awaited (calls (shutdown s) ! length (calls s))) = map settled oks \<and>
    (list_all id oks \<longrightarrow>
       instances (resume (length (calls s)) (run (settle_all (length (quits s)) oks) (shutdown s))) = [] \<and>
       \<not> initialized (resume (length (calls s)) (run (settle_all (length (quits s)) oks) (shutdown s))) \<and>
       result (calls (resume (length (calls s)) (run (settle_all (length (quits s)) oks) (shutdown s)))
          ! length (calls s)) = Fulfilled) \<and>
    (\<not> list_all id oks \<longrightarrow>
       instances (resume (length (calls s)) (run (settle_all (length (quits s)) oks) (shutdown s))) =
         instances s \<and>
       initialized (resume (length (calls s)) (run (settle_all (length (quits s)) oks) (shutdown s))) \<and>
       result (calls (resume (length (calls s)) (run (settle_all (length (quits s)) oks) (shutdown s)))
          ! length (calls s)) = Rejected)"
proof -
  define t where "t = run (settle_all (length (quits s)) oks) (shutdown s)"
  have t: "t = s\<lparr>calls := calls s @
       [\<lparr>awaited = [length (quits s) ..< length (quits s) + length (instances s)], result = Pending\<rparr>],
      quits := quits s @ map (\<lambda>(c, ok). (c, settled ok)) (zip (map snd (instances s)) oks)\<rparr>"
    unfolding t_def using assms by (rule run_settle_shutdown)
  have issued: "map fst (drop (length (quits s)) (quits (shutdown s))) = map snd (instances s)"
    using assms(1) by (simp add: shutdown_initialized comp_def)
  have aw: "awaited (calls (shutdown s) ! length (calls s)) =
      [length (quits s) ..< length (quits s) + length (instances s)]"
    using assms(1) by (simp add: shutdown_initialized)
  have ps: "map (promise_state t) [length (quits s) ..< length (quits s) + length (instances s)] =
      map settled oks"
    unfolding t using promise_states_settled [where oks = oks and cs = "map snd (instances s)" and q = "quits s"] assms(2)
    by simp
  have j: "length (calls s) < length (calls t)" and pend: "result (calls t ! length (calls s)) = Pending"
    and awt: "awaited (calls t ! length (calls s)) =
      [length (quits s) ..< length (quits s) + length (instances s)]"
    by (simp_all add: t)
  have r: "resume (length (calls s)) t =
    (if list_all id oks
     then t\<lparr>instances := [], initialized := False,
            calls := (calls t)[length (calls s) := (calls t ! length (calls s))\<lparr>result := Fulfilled\<rparr>]\<rparr>
     else t\<lparr>calls := (calls t)[length (calls s) := (calls t ! length (calls s))\<lparr>result := Rejected\<rparr>]\<rparr>)"
    using j pend ps by (intro resume_settled) (simp_all add: awt)
  have inst: "instances t = instances s" and ini: "initialized t"
    using assms(1) by (simp_all add: t)
  show ?thesis
    unfolding t_def [symmetric] using issued aw ps r j inst ini by simp
qed

text \<open>
  C2, amended, at a concrete input: two registered clients, both closes succeeding, and
  the first failing.
\<close>

theorem shutdown_completeness_witness:
  "initialized (run [Init config_two False] initial) \<and>
   instances (run [Init config_two False] initial) = [(''default'', 0), (''cache'', 1)] \<and>
   instances (resume 0 (run (settle_all 0 [True, True]) (shutdown (run [Init config_two False] initial)))) = [] \<and>
   \<not> initialized (resume 0 (run (settle_all 0 [True, True]) (shutdown (run [Init config_two False] initial)))) \<and>
   instances (resume 0 (run (settle_all 0 [False, True]) (shutdown (run [Init config_two False] initial)))) =
      [(''default'', 0), (''cache'', 1)] \<and>
   initialized (resume 0 (run (settle_all 0 [False, True]) (shutdown (run [Init config_two False] initial))))"
proof -
  note s = run_two
  have h1: "initialized (run [Init config_two False] initial)" by (simp add: s)
  have h2: "length [True, True] = length (instances (run [Init config_two False] initial))"
    and h3: "length [False, True] = length (instances (run [Init config_two False] initial))"
    by (simp_all add: s)
  show ?thesis
    using shutdown_completeness [OF h1 h2] shutdown_completeness [OF h1 h3]
    by (simp add: s)
qed

subsection \<open>Entries of the mapping\<close>

lemma createInstance_keeps:
  "map_of (instances s) k = Some c \<Longrightarrow> map_of (instances (snd (createInstance k' opt s))) k = Some c"
  by (auto simp: createInstance_def update_conv' split: option.splits)

lemma fold_createInstance_keeps:
  "map_of (instances s) k = Some c \<Longrightarrow>
   map_of (instances (fold (\<lambda>(k, opt) t. snd (createInstance k opt t)) cfg s)) k = Some c"
proof (induction cfg arbitrary: s)
  case Nil
  then show ?case by simp
next
  case (Cons x cfg)
  obtain k' opt where x: "x = (k', opt)" by (cases x)
  from Cons.prems have "map_of (instances (snd (createInstance k' opt s))) k = Some c"
    by (rule createInstance_keeps)
  then show ?case using Cons.IH x by simp
qed

lemma init_keeps:
  "map_of (instances s) k = Some c \<Longrightarrow> map_of (instances (snd (init cfg force s))) k = Some c"
  by (simp add: init_def fold_createInstance_keeps instances_shutdown)

lemma step_entry:
  assumes "map_of (instances s) k = Some c"
  shows "map_of (instances (step e s)) k = Some c \<or>
         (map_of (instances (step e s)) k = None \<and> removes k s e)"
proof (cases e)
  case (Init cfg force)
  then show ?thesis using assms by (simp add: init_keeps)
next
  case Shutdown
  then show ?thesis using assms by (simp add: instances_shutdown)
next
  case (Settle p ok)
  then show ?thesis using assms by (simp add: instances_settle)
next
  case (Resume j)
  then show ?thesis using assms by (simp add: resume_def)
next
  case (End c')
  then show ?thesis using assms by (auto simp: end_observer_def delete_conv')
qed

text \<open>
  C10. Along every sequence of events, from any state, an entry of the mapping is after
  each event either the same client under the same name, or gone, and gone only by the
  \<open>end\<close> observer of a client created under that name or by the resumption of a
  \<open>shutdown\<close>; and \<open>createInstance\<close> for a registered name returns the registered
  client and the unchanged state.
\<close>

theorem entries_never_overwritten:
  "(\<forall>i<length es. \<forall>c. map_of (instances (run (take i es) s)) k = Some c \<longrightarrow>
       map_of (instances (run (take (Suc i) es) s)) k = Some c \<or>
       (map_of (instances (run (take (Suc i) es) s)) k = None \<and>
        removes k (run (take i es) s) (es ! i))) \<and>
   (\<forall>c. map_of (instances s) k = Some c \<longrightarrow>
       createInstance k opt s = (c, s))"
proof (intro conjI allI impI)
  fix i c
  assume "i < length es" and "map_of (instances (run (take i es) s)) k = Some c"
  then show "map_of (instances (run (take (Suc i) es) s)) k = Some c \<or>
       (map_of (instances (run (take (Suc i) es) s)) k = None \<and>
        removes k (run (take i es) s) (es ! i))"
    using step_entry [of "run (take i es) s" k c "es ! i"] by (simp add: run_take_Suc)
next
  fix c
  assume "map_of (instances s) k = Some c"
  then show "createInstance k opt s = (c, s)"
    by (simp add: createInstance_def)
qed

text \<open>
  C10 at a concrete input: a forced \<open>init\<close> keeps the entry of \<open>default\<close>, the \<open>end\<close>
  of client 1 removes the entry of \<open>cache\<close>, and \<open>createInstance\<close> for \<open>cache\<close> returns
  client 1.
\<close>

theorem entries_never_overwritten_witness:
  "map_of (instances (run (take 0 [Init config_two True, End 1]) (run [Init config_two False] initial)))
     ''default'' = Some 0 \<and>
   map_of (instances (run (take 1 [Init config_two True, End 1]) (run [Init config_two False] initial)))
     ''default'' = Some 0 \<and>
   map_of (instances (run (take 1 [Init config_two True, End 1]) (run [Init config_two False] initial)))
     ''cache'' = Some 1 \<and>
   map_of (instances (run (take 2 [Init config_two True, End 1]) (run [Init config_two False] initial)))
     ''cache'' = None \<and>
   removes ''cache'' (run (take 1 [Init config_two True, End 1]) (run [Init config_two False] initial))
     ([Init config_two True, End 1] ! 1) \<and>
   createInstance ''cache'' [] (run [Init config_two False] initial) =
     (1, run [Init config_two False] initial)"
proof -
  have t: "run [Init config_two True] (run [Init config_two False] initial) =
     \<lparr>instances = [(''default'', 0), (''cache'', 1)], initialized = True,
      clients = [\<lparr>key = ''default'', opts = client_options [(''host'', Str ''a'')]\<rparr>,
                 \<lparr>key = ''cache'',
                  opts = client_options [(''host'', Str ''b''), (''maxRetriesPerRequest'', Num 9)]\<rparr>],
      quits = [(0, Pending), (1, Pending)],
      calls = [\<lparr>awaited = [0, 1], result = Pending\<rparr>]\<rparr>"
    unfolding run_two
    by (simp add: run_def init_def shutdown_def config_two_def createInstance_def upt_rec)
  have u: "run [Init config_two True, End 1] (run [Init config_two False] initial) =
     end_observer 1 (run [Init config_two True] (run [Init config_two False] initial))"
    by (simp add: run_def)
  have v: "run (take 0 [Init config_two True, End 1]) (run [Init config_two False] initial) =
       run [Init config_two False] initial"
    "run (take 1 [Init config_two True, End 1]) (run [Init config_two False] initial) =
       run [Init config_two True] (run [Init config_two False] initial)"
    "run (take (Suc 0) [Init config_two True, End 1]) (run [Init config_two False] initial) =
       run [Init config_two True] (run [Init config_two False] initial)"
    "run (take (Suc 1) [Init config_two True, End 1]) (run [Init config_two False] initial) =
       end_observer 1 (run [Init config_two True] (run [Init config_two False] initial))"
    "run (take 2 [Init config_two True, End 1]) (run [Init config_two False] initial) =
       end_observer 1 (run [Init config_two True] (run [Init config_two False] initial))"
    by (simp_all add: run_def)
  have w: "[Init config_two True, End 1] ! 1 = End 1"
    by simp
  have h0: "map_of (instances (run (take 0 [Init config_two True, End 1])
      (run [Init config_two False] initial))) ''default'' = Some 0"
    by (simp only: v) (simp add: run_two)
  have h1: "map_of (instances (run (take 1 [Init config_two True, End 1])
      (run [Init config_two False] initial))) ''cache'' = Some 1"
    by (simp only: v t) simp
  have h2: "map_of (instances (run [Init config_two False] initial)) ''cache'' = Some 1"
    by (simp add: run_two)
  have l0: "0 < length [Init config_two True, End 1]" and l1: "1 < length [Init config_two True, End 1]"
    by simp_all
  note a = entries_never_overwritten [of "[Init config_two True, End 1]"
      "run [Init config_two False] initial" "''default''" "[]", THEN conjunct1, rule_format, OF l0 h0]
  note b = entries_never_overwritten [of "[Init config_two True, End 1]"
      "run [Init config_two False] initial" "''cache''" "[]", THEN conjunct1, rule_format, OF l1 h1]
  note c = entries_never_overwritten [of "[Init config_two True, End 1]"
      "run [Init config_two False] initial" "''cache''" "[]", THEN conjunct2, rule_format, OF h2]
  have d: "map_of (instances (run (take 1 [Init config_two True, End 1])
      (run [Init config_two False] initial))) ''default'' = Some 0"
    using a by (simp only: v t) simp
  have e: "map_of (instances (run (take 2 [Init config_two True, End 1])
      (run [Init config_two False] initial))) ''cache'' = None \<and>
      removes ''cache'' (run (take 1 [Init config_two True, End 1]) (run [Init config_two False] initial))
        ([Init config_two True, End 1] ! 1)"
    using b by (simp only: v t w) (simp add: end_observer_def)
  show ?thesis
    using h0 h1 c d e by simp
qed

end
